theory Spec2Isabelle
  imports Main
begin

section \<open>Python values\<close>

text \<open>
  The bridge is one request handler, \<^verbatim>\<open>WindSpeedHandler\<close> in \<^verbatim>\<open>serial_bridge.py\<close>, and a
  \<^verbatim>\<open>main\<close> that opens the serial port and runs the server. The handler reads a JSON body,
  coerces one field with \<^verbatim>\<open>float()\<close> and writes \<^verbatim>\<open>f"{wind_speed:.1f}\n"\<close> to the port.
  What the handler does therefore rests on four operations of the Python runtime:
  \<^verbatim>\<open>int(str)\<close>, \<^verbatim>\<open>json.loads\<close>, \<^verbatim>\<open>float(x)\<close> and the \<^verbatim>\<open>.1f\<close> format. They are embedded
  first, as CPython 3.11 computes them on ASCII text.

  A Python \<^verbatim>\<open>str\<close> is a list of code points. A \<^verbatim>\<open>float\<close> is an IEEE binary64 value: a
  finite one is sign, significand \<open>m\<close> and exponent \<open>e\<close> and stands for \<open>m * 2 ^ e\<close>
  (with \<open>m < 2 ^ 53\<close> and \<open>- 1074 \<le> e \<le> 971\<close>); the sign is kept apart because
  \<^verbatim>\<open>-0.0\<close> prints its sign.
\<close>

type_synonym pystr = "nat list"

datatype pyfloat = Finite bool nat int | Infinite bool | NaN

datatype pyvalue =
    PyNone
  | PyBool bool
  | PyInt int
  | PyFloat pyfloat
  | PyStr pystr
  | PyList "pyvalue list"
  | PyDict "(pystr \<times> pyvalue) list"

text \<open>
  The exceptions the handler can meet. \<^verbatim>\<open>json.JSONDecodeError\<close> is a subclass of
  \<^verbatim>\<open>ValueError\<close>; \<^verbatim>\<open>OverflowError\<close> is not (it is an \<^verbatim>\<open>ArithmeticError\<close>).
  \<^verbatim>\<open>SerialException\<close> carries its message.
\<close>

datatype py_exception =
    JSONDecodeError
  | KeyError
  | TypeError
  | ValueError
  | OverflowError
  | AssertionError
  | SerialException pystr

definition str_of :: "string \<Rightarrow> pystr" where
  "str_of s = map of_char s"

subsection \<open>Decimal digits\<close>

definition is_digit :: "char \<Rightarrow> bool" where
  "is_digit c \<longleftrightarrow> 48 \<le> (of_char c :: nat) \<and> (of_char c :: nat) \<le> 57"

definition digit_val :: "char \<Rightarrow> nat" where
  "digit_val c = of_char c - 48"

definition nat_of_digits :: "string \<Rightarrow> nat" where
  "nat_of_digits ds = foldl (\<lambda>a c. 10 * a + digit_val c) 0 ds"

definition digit :: "nat \<Rightarrow> char" where
  "digit d = ''0123456789'' ! (d mod 10)"

text \<open>\<^verbatim>\<open>str(n)\<close> of a natural number.\<close>

fun decimal :: "nat \<Rightarrow> string" where
  "decimal n = (if n < 10 then [digit n] else decimal (n div 10) @ [digit (n mod 10)])"

declare decimal.simps [simp del]

subsection \<open>Binary64 rounding\<close>

text \<open>\<^verbatim>\<open>int.bit_length\<close>.\<close>

fun bit_length :: "nat \<Rightarrow> nat" where
  "bit_length n = (if n = 0 then 0 else Suc (bit_length (n div 2)))"

declare bit_length.simps [simp del]

text \<open>The integer nearest to \<open>n / d\<close>, a tie going to the even one (\<open>d\<close> is positive).\<close>

definition round_half_even :: "nat \<Rightarrow> nat \<Rightarrow> nat" where
  "round_half_even n d =
     (let q = n div d; r = n mod d
      in if 2 * r < d then q
         else if d < 2 * r then q + 1
         else if even q then q else q + 1)"

text \<open>\<open>pow2_le k n d\<close>: \<open>2 ^ k \<le> n / d\<close>, for an integer \<open>k\<close> of either sign.\<close>

definition pow2_le :: "int \<Rightarrow> nat \<Rightarrow> nat \<Rightarrow> bool" where
  "pow2_le k n d \<longleftrightarrow> (if 0 \<le> k then d * 2 ^ nat k \<le> n else d \<le> n * 2 ^ nat (- k))"

text \<open>
  The binary64 value nearest to \<open>n / d\<close> (round to nearest, ties to even), which is what
  the runtime's string-to-double and integer-to-double conversions return. \<open>fl\<close> is
  \<open>\<lfloor>log\<^sub>2 (n / d)\<rfloor>\<close>; the significand has 53 bits, fewer below \<open>2 ^ - 1022\<close>
  (subnormal numbers), and a value that rounds to \<open>2 ^ 1024\<close> or more is infinite.
\<close>

definition float_of_ratio :: "bool \<Rightarrow> nat \<Rightarrow> nat \<Rightarrow> pyfloat" where
  "float_of_ratio neg n d =
     (if n = 0 then Finite neg 0 0
      else
        let k = int (bit_length n) - int (bit_length d);
            fl = (if pow2_le k n d then k else k - 1);
            e = max (fl - 52) (- 1074);
            m = (if 0 \<le> e then round_half_even n (d * 2 ^ nat e)
                 else round_half_even (n * 2 ^ nat (- e)) d)
        in if m = 0 then Finite neg 0 0
           else if m = 2 ^ 53 then (if 971 \<le> e then Infinite neg else Finite neg (2 ^ 52) (e + 1))
           else if 971 < e then Infinite neg
           else Finite neg m e)"

text \<open>
  The value of a decimal numeral: the digits \<open>ip\<close> before the point, the digits \<open>fp\<close>
  after it, and the exponent \<open>ex\<close>.
\<close>

definition float_of_decimal :: "bool \<Rightarrow> string \<Rightarrow> string \<Rightarrow> int \<Rightarrow> pyfloat" where
  "float_of_decimal neg ip fp ex =
     (let ds = nat_of_digits (ip @ fp); sc = ex - int (length fp)
      in if 0 \<le> sc then float_of_ratio neg (ds * 10 ^ nat sc) 1
         else float_of_ratio neg ds (10 ^ nat (- sc)))"

text \<open>\<^verbatim>\<open>float(n)\<close> of an \<^verbatim>\<open>int\<close>: \<^verbatim>\<open>OverflowError\<close> beyond the range of a double.\<close>

definition float_of_int :: "int \<Rightarrow> py_exception + pyfloat" where
  "float_of_int i =
     (case float_of_ratio (i < 0) (nat \<bar>i\<bar>) 1 of
        Infinite _ \<Rightarrow> Inl OverflowError
      | x \<Rightarrow> Inr x)"

subsection \<open>The format \<^verbatim>\<open>.1f\<close>\<close>

text \<open>
  \<^verbatim>\<open>f"{x:.1f}"\<close>: the exact value of the double, rounded to one decimal place (ties to
  even); \<open>q\<close> is the number of tenths. Non-finite values print as words.
\<close>

definition format_1f :: "pyfloat \<Rightarrow> string" where
  "format_1f x =
     (case x of
        NaN \<Rightarrow> ''nan''
      | Infinite neg \<Rightarrow> (if neg then ''-inf'' else ''inf'')
      | Finite neg m e \<Rightarrow>
          (let q = (if 0 \<le> e then m * 2 ^ nat e * 10
                    else round_half_even (m * 10) (2 ^ nat (- e)))
           in (if neg then ''-'' else '''') @ decimal (q div 10) @ ''.'' @ [digit (q mod 10)]))"

section \<open>Text to numbers\<close>

text \<open>
  The C-locale white space that \<^verbatim>\<open>int()\<close> and \<^verbatim>\<open>float()\<close> strip from both ends of an
  ASCII string: tab, line feed, vertical tab, form feed, carriage return and space.
\<close>

definition is_space :: "char \<Rightarrow> bool" where
  "is_space c \<longleftrightarrow> (9 \<le> (of_char c :: nat) \<and> (of_char c :: nat) \<le> 13) \<or> c = CHR 0x20"

definition strip :: "string \<Rightarrow> string" where
  "strip s = rev (dropWhile is_space (rev (dropWhile is_space s)))"

definition lower :: "char \<Rightarrow> char" where
  "lower c =
     (if 65 \<le> (of_char c :: nat) \<and> (of_char c :: nat) \<le> 90 then char_of (of_char c + (32 :: nat))
      else c)"

text \<open>
  An underscore in a numeral stands between two digits (PEP 515). \<open>prev\<close> is the
  character before, \<open>CHR 0x00\<close> at the start.
\<close>

fun underscores_ok :: "char \<Rightarrow> string \<Rightarrow> bool" where
  "underscores_ok prev [] \<longleftrightarrow> prev \<noteq> CHR ''_''"
| "underscores_ok prev (c # cs) \<longleftrightarrow>
     (if c = CHR ''_'' then is_digit prev else prev = CHR ''_'' \<longrightarrow> is_digit c)
     \<and> underscores_ok c cs"

subsection \<open>\<^verbatim>\<open>int(s)\<close>\<close>

text \<open>
  The limit on the digits of an integer numeral (\<^verbatim>\<open>sys.int_info.default_max_str_digits\<close>):
  a longer one is a \<^verbatim>\<open>ValueError\<close>.
\<close>

definition max_str_digits :: nat where
  "max_str_digits = 4300"

text \<open>
  \<^verbatim>\<open>int(s)\<close> of a header value. The HTTP library decodes header bytes as ISO-8859-1, so
  every character is a code point below 256; of those beyond ASCII the runtime reads
  \<open>0x85\<close> and \<open>0xA0\<close> as spaces. Then: white space, a sign, decimal digits with single
  underscores between them, white space.
\<close>

definition int_text :: "string \<Rightarrow> py_exception + int" where
  "int_text s =
     (let t = strip (map (\<lambda>c. if c = CHR 0x85 \<or> c = CHR 0xA0 then CHR 0x20 else c) s);
          neg = (take 1 t = ''-'');
          u = (if take 1 t = ''-'' \<or> take 1 t = ''+'' then drop 1 t else t);
          ds = filter (\<lambda>c. c \<noteq> CHR ''_'') u
      in if u = [] \<or> \<not> list_all (\<lambda>c. is_digit c \<or> c = CHR ''_'') u
            \<or> \<not> underscores_ok (CHR 0x00) u
         then Inl ValueError
         else if max_str_digits < length ds then Inl ValueError
         else Inr (if neg then - int (nat_of_digits ds) else int (nat_of_digits ds)))"

subsection \<open>\<^verbatim>\<open>float(s)\<close>\<close>

text \<open>
  A decimal numeral, all of the text: digits with an optional point (at least one digit
  on one side of it), then an optional exponent. The result is the digits before the
  point, those after it, and the exponent.
\<close>

definition parse_exponent :: "string \<Rightarrow> int option" where
  "parse_exponent r =
     (case r of
        [] \<Rightarrow> Some 0
      | c # t \<Rightarrow>
          if c = CHR ''e'' \<or> c = CHR ''E'' then
            (let neg = (take 1 t = ''-'');
                 ds = (if take 1 t = ''-'' \<or> take 1 t = ''+'' then drop 1 t else t)
             in if ds \<noteq> [] \<and> list_all is_digit ds
                then Some (if neg then - int (nat_of_digits ds) else int (nat_of_digits ds))
                else None)
          else None)"

definition parse_decimal :: "string \<Rightarrow> (string \<times> string \<times> int) option" where
  "parse_decimal s =
     (let ip = takeWhile is_digit s;
          r1 = dropWhile is_digit s;
          fp = (if take 1 r1 = ''.'' then takeWhile is_digit (drop 1 r1) else []);
          r2 = (if take 1 r1 = ''.'' then dropWhile is_digit (drop 1 r1) else r1)
      in if ip = [] \<and> fp = [] then None
         else (case parse_exponent r2 of None \<Rightarrow> None | Some ex \<Rightarrow> Some (ip, fp, ex)))"

text \<open>
  \<^verbatim>\<open>float(s)\<close> of ASCII text: underscores checked and dropped, white space stripped, a
  sign, then a decimal numeral or one of the words \<^verbatim>\<open>inf\<close>, \<^verbatim>\<open>infinity\<close>, \<^verbatim>\<open>nan\<close> in any
  case. A numeral beyond the range of a double is infinite; there is no
  \<^verbatim>\<open>OverflowError\<close> here.
\<close>

definition float_text :: "string \<Rightarrow> py_exception + pyfloat" where
  "float_text s =
     (if \<not> underscores_ok (CHR 0x00) s then Inl ValueError
      else
        let t = strip (filter (\<lambda>c. c \<noteq> CHR ''_'') s);
            neg = (take 1 t = ''-'');
            u = (if take 1 t = ''-'' \<or> take 1 t = ''+'' then drop 1 t else t)
        in case parse_decimal u of
             Some (ip, fp, ex) \<Rightarrow> Inr (float_of_decimal neg ip fp ex)
           | None \<Rightarrow>
               (let w = map lower u
                in if w = ''inf'' \<or> w = ''infinity'' then Inr (Infinite neg)
                   else if w = ''nan'' then Inr NaN
                   else Inl ValueError))"

text \<open>
  \<^verbatim>\<open>float(s)\<close> of a \<^verbatim>\<open>str\<close>. Beyond ASCII the runtime also reads the decimal digits and
  spaces of other scripts; the embedding covers ASCII text and counts any other code
  point as invalid, so statements about rejected strings are made for ASCII strings.
\<close>

definition ascii_str :: "pystr \<Rightarrow> bool" where
  "ascii_str s \<longleftrightarrow> list_all (\<lambda>c. c < 128) s"

definition float_str :: "pystr \<Rightarrow> py_exception + pyfloat" where
  "float_str s = (if ascii_str s then float_text (map char_of s) else Inl ValueError)"

section \<open>\<^verbatim>\<open>json.loads\<close>\<close>

text \<open>
  The decoder of the \<^verbatim>\<open>json\<close> module with its default settings, on ASCII text: there
  \<^verbatim>\<open>bytes.decode\<close> is the identity, so the body's bytes are the characters the scanner
  reads. Each function takes the text from the scanner's position on and returns the
  text left after what it has read. Every failure of the decoder is a
  \<^verbatim>\<open>JSONDecodeError\<close>, whatever its message. The interpreter's recursion limit is not
  modelled: a body is taken to nest less deep.
\<close>

definition is_ws :: "char \<Rightarrow> bool" where
  "is_ws c \<longleftrightarrow> c = CHR 0x20 \<or> c = CHR 0x09 \<or> c = CHR 0x0A \<or> c = CHR 0x0D"

definition skip_ws :: "string \<Rightarrow> string" where
  "skip_ws s = dropWhile is_ws s"

subsection \<open>Strings\<close>

definition hex_val :: "char \<Rightarrow> nat option" where
  "hex_val c =
     (let n = (of_char c :: nat)
      in if 48 \<le> n \<and> n \<le> 57 then Some (n - 48)
         else if 65 \<le> n \<and> n \<le> 70 then Some (n - 55)
         else if 97 \<le> n \<and> n \<le> 102 then Some (n - 87)
         else None)"

text \<open>The four hexadecimal digits of a \<^verbatim>\<open>\uXXXX\<close> escape.\<close>

fun decode_uXXXX :: "string \<Rightarrow> (nat \<times> string) option" where
  "decode_uXXXX (a # b # c # d # r) =
     (case hex_val a of None \<Rightarrow> None | Some x \<Rightarrow>
       (case hex_val b of None \<Rightarrow> None | Some y \<Rightarrow>
         (case hex_val c of None \<Rightarrow> None | Some z \<Rightarrow>
           (case hex_val d of None \<Rightarrow> None | Some w \<Rightarrow>
              Some (((x * 16 + y) * 16 + z) * 16 + w, r)))))"
| "decode_uXXXX _ = None"

text \<open>The table \<^verbatim>\<open>BACKSLASH\<close> of the one-character escapes.\<close>

definition backslash :: "char \<Rightarrow> nat option" where
  "backslash e =
     (if e = CHR 0x22 then Some 0x22
      else if e = CHR 0x5C then Some 0x5C
      else if e = CHR ''/'' then Some 0x2F
      else if e = CHR ''b'' then Some 0x08
      else if e = CHR ''f'' then Some 0x0C
      else if e = CHR ''n'' then Some 0x0A
      else if e = CHR ''r'' then Some 0x0D
      else if e = CHR ''t'' then Some 0x09
      else None)"

lemma decode_uXXXX_length:
  "decode_uXXXX s = Some (u, r) \<Longrightarrow> length s = length r + 4"
  by (induction s rule: decode_uXXXX.induct) (auto split: option.splits)

text \<open>
  An escape, from the character after the backslash: the code point and the text left.
  A high surrogate escape followed by a low surrogate escape is one code point.
\<close>

definition scan_escape :: "string \<Rightarrow> (nat \<times> string) option" where
  "scan_escape cs =
     (case cs of
        [] \<Rightarrow> None
      | e # es \<Rightarrow>
          if e = CHR ''u'' then
            (case decode_uXXXX es of
               None \<Rightarrow> None
             | Some (uni, r) \<Rightarrow>
                 if 0xD800 \<le> uni \<and> uni \<le> 0xDBFF \<and> take 2 r = [CHR 0x5C, CHR ''u''] then
                   (case decode_uXXXX (drop 2 r) of
                      None \<Rightarrow> None
                    | Some (uni2, r2) \<Rightarrow>
                        if 0xDC00 \<le> uni2 \<and> uni2 \<le> 0xDFFF
                        then Some (0x10000 + ((uni - 0xD800) * 1024 + (uni2 - 0xDC00)), r2)
                        else Some (uni, r))
                 else Some (uni, r))
          else
            (case backslash e of
               None \<Rightarrow> None
             | Some ch \<Rightarrow> Some (ch, es)))"

lemma scan_escape_length:
  assumes "scan_escape cs = Some (ch, r)"
  shows "length r < length cs"
proof (cases cs)
  case Nil
  with assms show ?thesis by (simp add: scan_escape_def)
next
  case (Cons e es)
  show ?thesis
  proof (cases "e = CHR ''u''")
    case False
    with assms Cons show ?thesis
      by (auto simp: scan_escape_def split: option.splits)
  next
    case True
    then obtain uni r1 where d1: "decode_uXXXX es = Some (uni, r1)"
      using assms Cons by (auto simp: scan_escape_def split: option.splits)
    have l1: "length es = length r1 + 4"
      using d1 by (rule decode_uXXXX_length)
    have "r = r1 \<or> (\<exists>uni2. decode_uXXXX (drop 2 r1) = Some (uni2, r))"
      using assms Cons True d1
      by (auto simp: scan_escape_def split: option.splits if_splits)
    then show ?thesis
    proof
      assume "r = r1"
      with l1 Cons show ?thesis by simp
    next
      assume "\<exists>uni2. decode_uXXXX (drop 2 r1) = Some (uni2, r)"
      then obtain uni2 where "decode_uXXXX (drop 2 r1) = Some (uni2, r)" ..
      then have "length (drop 2 r1) = length r + 4"
        by (rule decode_uXXXX_length)
      with l1 Cons show ?thesis by simp
    qed
  qed
qed

text \<open>
  \<^verbatim>\<open>scanstring\<close>, from the character after the opening quote, in strict mode: a control
  character inside a string is an error.
\<close>

function scanstring :: "string \<Rightarrow> pystr \<Rightarrow> py_exception + (pystr \<times> string)" where
  "scanstring [] acc = Inl JSONDecodeError"
| "scanstring (c # cs) acc =
     (if c = CHR 0x22 then Inr (acc, cs)
      else if c = CHR 0x5C then
        (case scan_escape cs of
           None \<Rightarrow> Inl JSONDecodeError
         | Some (ch, r) \<Rightarrow> scanstring r (acc @ [ch]))
      else if (of_char c :: nat) < 0x20 then Inl JSONDecodeError
      else scanstring cs (acc @ [of_char c]))"
  by pat_completeness auto
termination
  by (relation "measure (\<lambda>(s, acc). length s)") (auto dest!: scan_escape_length)

subsection \<open>Numbers\<close>

text \<open>
  The scanner's number pattern \<^verbatim>\<open>(-?(?:0|[1-9]\d*))(\.\d+)?([eE][-+]?\d+)?\<close>: the three
  groups (an absent one is empty) and the text after the match.
\<close>

definition match_frac :: "string \<Rightarrow> string \<times> string" where
  "match_frac r =
     (case r of
        p # q # t \<Rightarrow>
          if p = CHR ''.'' \<and> is_digit q
          then (p # takeWhile is_digit (q # t), dropWhile is_digit (q # t))
          else ([], r)
      | _ \<Rightarrow> ([], r))"

definition match_exp :: "string \<Rightarrow> string \<times> string" where
  "match_exp r =
     (case r of
        [] \<Rightarrow> ([], r)
      | e # t \<Rightarrow>
          if e = CHR ''e'' \<or> e = CHR ''E'' then
            (let sg = (if take 1 t = ''-'' \<or> take 1 t = ''+'' then take 1 t else []);
                 t1 = drop (length sg) t
             in if takeWhile is_digit t1 \<noteq> []
                then (e # sg @ takeWhile is_digit t1, dropWhile is_digit t1)
                else ([], r))
          else ([], r))"

definition match_number :: "string \<Rightarrow> (string \<times> string \<times> string \<times> string) option" where
  "match_number s =
     (let sg = (if take 1 s = ''-'' then ''-'' else []);
          s1 = drop (length sg) s
      in case s1 of
           [] \<Rightarrow> None
         | d # r \<Rightarrow>
             if \<not> is_digit d then None
             else
               let ip = (if d = CHR ''0'' then [d] else d # takeWhile is_digit r);
                   r1 = (if d = CHR ''0'' then r else dropWhile is_digit r);
                   (frac, r2) = match_frac r1;
                   (ex, r3) = match_exp r2
               in Some (sg @ ip, frac, ex, r3))"

text \<open>
  The branches of \<^verbatim>\<open>_scan_once\<close> that read a word or a number, in its order. A number
  with a fraction or an exponent goes to \<^verbatim>\<open>float\<close>, any other to \<^verbatim>\<open>int\<close>; the words
  \<^verbatim>\<open>NaN\<close>, \<^verbatim>\<open>Infinity\<close> and \<^verbatim>\<open>-Infinity\<close> are accepted.
\<close>

definition scan_atom :: "string \<Rightarrow> py_exception + (pyvalue \<times> string)" where
  "scan_atom s =
     (if take 4 s = ''null'' then Inr (PyNone, drop 4 s)
      else if take 4 s = ''true'' then Inr (PyBool True, drop 4 s)
      else if take 5 s = ''false'' then Inr (PyBool False, drop 5 s)
      else
        (case match_number s of
           Some (integer, frac, ex, r) \<Rightarrow>
             if frac \<noteq> [] \<or> ex \<noteq> [] then
               (case float_text (integer @ frac @ ex) of
                  Inl e \<Rightarrow> Inl e
                | Inr x \<Rightarrow> Inr (PyFloat x, r))
             else
               (case int_text integer of
                  Inl e \<Rightarrow> Inl e
                | Inr i \<Rightarrow> Inr (PyInt i, r))
         | None \<Rightarrow>
             if take 3 s = ''NaN'' then Inr (PyFloat NaN, drop 3 s)
             else if take 8 s = ''Infinity'' then Inr (PyFloat (Infinite False), drop 8 s)
             else if take 9 s = ''-Infinity'' then Inr (PyFloat (Infinite True), drop 9 s)
             else Inl JSONDecodeError))"

subsection \<open>Values\<close>

text \<open>
  \<^verbatim>\<open>scan_once\<close> with the loops of \<^verbatim>\<open>JSONArray\<close> and \<^verbatim>\<open>JSONObject\<close>. \<open>JSONArray s acc\<close> is
  the loop at the start of an element, \<open>acc\<close> the elements read so far; \<open>JSONObject s acc\<close>
  is the loop just after the opening quote of a key. The two tests on lengths are there
  for the termination proof only; \<open>JSONArray_unfold\<close> and \<open>JSONObject_unfold\<close> below
  show that they never fail.
\<close>

lemma skip_ws_length: "length (skip_ws s) \<le> length s"
  by (simp add: skip_ws_def length_dropWhile_le)

lemma skip_ws_Cons_length: "skip_ws s = d # r \<Longrightarrow> length r < length s"
  using skip_ws_length [of s] by simp

lemma scanstring_length: "scanstring s acc = Inr (k, r) \<Longrightarrow> length r < length s"
proof (induction s acc arbitrary: k r rule: scanstring.induct)
  case (1 acc)
  then show ?case by simp
next
  case (2 c cs acc)
  consider (quote) "c = CHR 0x22"
    | (escape) ch r1 where "c \<noteq> CHR 0x22" "c = CHR 0x5C" "scan_escape cs = Some (ch, r1)"
        "scanstring r1 (acc @ [ch]) = Inr (k, r)"
    | (plain) "c \<noteq> CHR 0x22" "c \<noteq> CHR 0x5C" "\<not> (of_char c :: nat) < 0x20"
        "scanstring cs (acc @ [of_char c]) = Inr (k, r)"
    using "2.prems" by (auto split: if_splits option.splits)
  then show ?case
  proof cases
    case quote
    with "2.prems" show ?thesis by simp
  next
    case escape
    from "2.IH"(1) [OF escape(1,2) escape(3) refl escape(4)]
    have "length r < length r1" .
    with scan_escape_length [OF escape(3)] show ?thesis by simp
  next
    case plain
    from "2.IH"(2) [OF plain(1,2,3) plain(4)] show ?thesis by simp
  qed
qed

function scan_once :: "string \<Rightarrow> py_exception + (pyvalue \<times> string)"
  and JSONArray :: "string \<Rightarrow> pyvalue list \<Rightarrow> py_exception + (pyvalue \<times> string)"
  and JSONObject :: "string \<Rightarrow> (pystr \<times> pyvalue) list \<Rightarrow> py_exception + (pyvalue \<times> string)"
where
  "scan_once s =
     (case s of
        [] \<Rightarrow> Inl JSONDecodeError
      | c # cs \<Rightarrow>
          if c = CHR 0x22 then
            (case scanstring cs [] of Inl e \<Rightarrow> Inl e | Inr (t, r) \<Rightarrow> Inr (PyStr t, r))
          else if c = CHR ''{'' then
            (case skip_ws cs of
               [] \<Rightarrow> Inl JSONDecodeError
             | d # r \<Rightarrow>
                 if d = CHR ''}'' then Inr (PyDict [], r)
                 else if d = CHR 0x22 then JSONObject r []
                 else Inl JSONDecodeError)
          else if c = CHR ''['' then
            (if take 1 (skip_ws cs) = '']'' then Inr (PyList [], drop 1 (skip_ws cs))
             else JSONArray (skip_ws cs) [])
          else scan_atom s)"
| "JSONArray s acc =
     (case scan_once s of
        Inl e \<Rightarrow> Inl e
      | Inr (v, r) \<Rightarrow>
          (case skip_ws r of
             [] \<Rightarrow> Inl JSONDecodeError
           | d # r1 \<Rightarrow>
               if d = CHR '']'' then Inr (PyList (acc @ [v]), r1)
               else if d = CHR '','' then
                 (if length r1 < length s then JSONArray (skip_ws r1) (acc @ [v])
                  else Inl JSONDecodeError)
               else Inl JSONDecodeError))"
| "JSONObject s acc =
     (case scanstring s [] of
        Inl e \<Rightarrow> Inl e
      | Inr (k, r) \<Rightarrow>
          (case skip_ws r of
             [] \<Rightarrow> Inl JSONDecodeError
           | d # r1 \<Rightarrow>
               if d \<noteq> CHR '':'' then Inl JSONDecodeError
               else
                 (case scan_once (skip_ws r1) of
                    Inl e \<Rightarrow> Inl e
                  | Inr (v, r2) \<Rightarrow>
                      (case skip_ws r2 of
                         [] \<Rightarrow> Inl JSONDecodeError
                       | d2 # r3 \<Rightarrow>
                           if d2 = CHR ''}'' then Inr (PyDict (acc @ [(k, v)]), r3)
                           else if d2 = CHR '','' then
                             (case skip_ws r3 of
                                [] \<Rightarrow> Inl JSONDecodeError
                              | d3 # r4 \<Rightarrow>
                                  if d3 = CHR 0x22 \<and> length r4 < length s
                                  then JSONObject r4 (acc @ [(k, v)])
                                  else Inl JSONDecodeError)
                           else Inl JSONDecodeError))))"
  by pat_completeness auto
termination
proof (relation "measure (\<lambda>x. case x of
           Inl s \<Rightarrow> 2 * length s
         | Inr (Inl (s, acc)) \<Rightarrow> 2 * length s + 1
         | Inr (Inr (s, acc)) \<Rightarrow> 2 * length s + 1)", goal_cases)
  case 1
  then show ?case by simp
next
  case (2 s c cs d r)
  then show ?case using skip_ws_Cons_length [of cs d r] by simp
next
  case (3 s c cs)
  then show ?case using skip_ws_length [of cs] by simp
next
  case (4 s acc)
  then show ?case by simp
next
  case (5 s acc x v r d r1)
  then show ?case using skip_ws_length [of r1] by simp
next
  case (6 s acc x k r d r1)
  then show ?case
    using scanstring_length [of s "[]" k r] skip_ws_Cons_length [of r d r1] skip_ws_length [of r1]
    by simp
next
  case (7 s acc x k r d r1 y v r2 d2 r3 d3 r4)
  then show ?case by simp
qed

declare scan_once.simps [simp del] JSONArray.simps [simp del] JSONObject.simps [simp del]

text \<open>
  \<^verbatim>\<open>JSONDecoder.decode\<close>: white space, one value, white space, the end; anything after
  the value is \<^verbatim>\<open>Extra data\<close>.
\<close>

definition json_loads :: "string \<Rightarrow> py_exception + pyvalue" where
  "json_loads s =
     (case scan_once (skip_ws s) of
        Inl e \<Rightarrow> Inl e
      | Inr (obj, r) \<Rightarrow> if skip_ws r = [] then Inr obj else Inl JSONDecodeError)"

section \<open>\<^verbatim>\<open>float(x)\<close>, subscription and \<^verbatim>\<open>json.dumps\<close>\<close>

text \<open>
  \<^verbatim>\<open>float(x)\<close> by the type of \<open>x\<close>: a \<^verbatim>\<open>bool\<close> is an \<^verbatim>\<open>int\<close>; \<^verbatim>\<open>None\<close>, a list and a dict
  are a \<^verbatim>\<open>TypeError\<close>.
\<close>

definition py_float :: "pyvalue \<Rightarrow> py_exception + pyfloat" where
  "py_float x =
     (case x of
        PyFloat f \<Rightarrow> Inr f
      | PyInt i \<Rightarrow> float_of_int i
      | PyBool b \<Rightarrow> float_of_int (if b then 1 else 0)
      | PyStr t \<Rightarrow> float_str t
      | PyNone \<Rightarrow> Inl TypeError
      | PyList _ \<Rightarrow> Inl TypeError
      | PyDict _ \<Rightarrow> Inl TypeError)"

text \<open>
  \<^verbatim>\<open>data[key]\<close> with a \<^verbatim>\<open>str\<close> key: a \<^verbatim>\<open>KeyError\<close> on a dict without the key, a
  \<^verbatim>\<open>TypeError\<close> on anything that is not a dict (a list or a string takes integer
  indices, the rest is not subscriptable). The decoder keeps the pairs of an object in
  the order read; of a repeated key the last pair counts.
\<close>

definition getitem :: "pyvalue \<Rightarrow> pystr \<Rightarrow> py_exception + pyvalue" where
  "getitem d k =
     (case d of
        PyDict kvs \<Rightarrow> (case map_of (rev kvs) k of None \<Rightarrow> Inl KeyError | Some v \<Rightarrow> Inr v)
      | _ \<Rightarrow> Inl TypeError)"

text \<open>
  \<^verbatim>\<open>json.dumps\<close> of a \<^verbatim>\<open>str\<close> (\<^verbatim>\<open>ensure_ascii\<close>): quotes around the text, every character
  outside \<open>0x20 .. 0x7E\<close> and the two characters \<open>"\<close> and \<open>\\<close> escaped.
\<close>

definition hex4 :: "nat \<Rightarrow> string" where
  "hex4 n = map (\<lambda>k. ''0123456789abcdef'' ! (n div 16 ^ k mod 16)) [3, 2, 1, 0]"

definition escape_char :: "nat \<Rightarrow> string" where
  "escape_char n =
     (if n = 0x22 then [CHR 0x5C, CHR 0x22]
      else if n = 0x5C then [CHR 0x5C, CHR 0x5C]
      else if n = 0x0A then [CHR 0x5C, CHR ''n'']
      else if n = 0x0D then [CHR 0x5C, CHR ''r'']
      else if n = 0x09 then [CHR 0x5C, CHR ''t'']
      else if n = 0x08 then [CHR 0x5C, CHR ''b'']
      else if n = 0x0C then [CHR 0x5C, CHR ''f'']
      else if 0x20 \<le> n \<and> n \<le> 0x7E then [char_of n]
      else if n < 0x10000 then [CHR 0x5C, CHR ''u''] @ hex4 n
      else [CHR 0x5C, CHR ''u''] @ hex4 (0xD800 + (n - 0x10000) div 1024 mod 1024)
           @ [CHR 0x5C, CHR ''u''] @ hex4 (0xDC00 + (n - 0x10000) mod 1024))"

definition dumps_str :: "pystr \<Rightarrow> string" where
  "dumps_str t = [CHR 0x22] @ concat (map escape_char t) @ [CHR 0x22]"

section \<open>The request handler\<close>

text \<open>
  A request as the HTTP library hands it to the handler: the method
  (\<^verbatim>\<open>self.command\<close>), the path, the value of the \<^verbatim>\<open>Content-Length\<close> header when there is
  one, and \<^verbatim>\<open>rfile\<close>, the bytes the client sends after the headers until it stops
  sending. A response is the status, the headers the handler sends, in order, and the
  body; the \<^verbatim>\<open>Server\<close> and \<^verbatim>\<open>Date\<close> headers that the library's \<^verbatim>\<open>send_response\<close> adds are
  left out.
\<close>

record request =
  command :: string
  path :: string
  content_length :: "string option"
  rfile :: string

record response =
  status :: nat
  headers :: "(string \<times> string) list"
  body :: string

text \<open>
  What a request ends in: a response of the handler; an exception that leaves the
  handler, on which the library logs a traceback and closes the connection with
  nothing sent; or the library's own error page (\<^verbatim>\<open>send_error\<close>) with its status.
\<close>

datatype outcome = Sent response | Raised py_exception | SendError nat

text \<open>
  The serial connection is \<^verbatim>\<open>None\<close> or a port. What \<^verbatim>\<open>write\<close> does with a message is the
  port's: \<open>None\<close> when it returns, \<open>Some m\<close> when it raises \<^verbatim>\<open>SerialException(m)\<close>.
\<close>

type_synonym serial = "string \<Rightarrow> pystr option"

text \<open>The result of a request: how it ends and the messages passed to \<^verbatim>\<open>write\<close>.\<close>

record result =
  reply :: outcome
  write_calls :: "string list"

definition cors_headers :: "(string \<times> string) list" where
  "cors_headers =
     [(''Access-Control-Allow-Origin'', ''*''),
      (''Access-Control-Allow-Methods'', ''POST, OPTIONS''),
      (''Access-Control-Allow-Headers'', ''Content-Type'')]"

text \<open>
  The four responses of \<^verbatim>\<open>do_POST\<close> are sent alike: \<^verbatim>\<open>send_response\<close>,
  \<^verbatim>\<open>_set_cors_headers\<close>, the \<^verbatim>\<open>Content-Type\<close> header, \<^verbatim>\<open>end_headers\<close>, the body.
\<close>

definition json_response :: "nat \<Rightarrow> string \<Rightarrow> response" where
  "json_response code b =
     \<lparr>status = code,
      headers = cors_headers @ [(''Content-Type'', ''application/json'')],
      body = b\<rparr>"

definition do_OPTIONS :: response where
  "do_OPTIONS = \<lparr>status = 204, headers = cors_headers, body = []\<rparr>"

text \<open>
  \<^verbatim>\<open>self.rfile.read(length) if length else b"{}"\<close>. A buffered reader returns the next
  \<open>length\<close> bytes, fewer if the stream ends; all of the stream for \<open>- 1\<close>; and raises
  \<^verbatim>\<open>ValueError\<close> for a length below \<open>- 1\<close>.
\<close>

definition read_payload :: "int \<Rightarrow> string \<Rightarrow> py_exception + string" where
  "read_payload len rf =
     (if len = 0 then Inr ''{}''
      else if len < - 1 then Inl ValueError
      else if len = - 1 then Inr rf
      else Inr (take (nat len) rf))"

text \<open>The body of the first \<^verbatim>\<open>try\<close>: read, decode, subscript, coerce.\<close>

definition wind_speed_of :: "int \<Rightarrow> string \<Rightarrow> py_exception + pyfloat" where
  "wind_speed_of len rf =
     (case read_payload len rf of
        Inl e \<Rightarrow> Inl e
      | Inr payload \<Rightarrow>
          (case json_loads payload of
             Inl e \<Rightarrow> Inl e
           | Inr data \<Rightarrow>
               (case getitem data (str_of ''windSpeedKmh'') of
                  Inl e \<Rightarrow> Inl e
                | Inr x \<Rightarrow> py_float x)))"

text \<open>\<^verbatim>\<open>except (json.JSONDecodeError, KeyError, TypeError, ValueError)\<close>.\<close>

definition caught :: "py_exception \<Rightarrow> bool" where
  "caught e \<longleftrightarrow> e = JSONDecodeError \<or> e = KeyError \<or> e = TypeError \<or> e = ValueError"

text \<open>
  The second \<^verbatim>\<open>try\<close>: the \<^verbatim>\<open>assert\<close>, then \<^verbatim>\<open>write\<close>. The result is the exception caught
  by \<^verbatim>\<open>except (AssertionError, serial.SerialException)\<close>, if any, and the messages passed
  to \<^verbatim>\<open>write\<close>. The assertion has no message.
\<close>

definition forward :: "serial option \<Rightarrow> string \<Rightarrow> py_exception option \<times> string list" where
  "forward serial_conn message =
     (case serial_conn of
        None \<Rightarrow> (Some AssertionError, [])
      | Some port \<Rightarrow>
          (case port message of
             Some m \<Rightarrow> (Some (SerialException m), [message])
           | None \<Rightarrow> (None, [message])))"

text \<open>\<^verbatim>\<open>str(error)\<close>: the message of the exception, empty when it has none.\<close>

definition str_error :: "py_exception \<Rightarrow> pystr" where
  "str_error e = (case e of SerialException m \<Rightarrow> m | _ \<Rightarrow> [])"

text \<open>\<^verbatim>\<open>json.dumps({"error": "serial_error", "details": str(error)})\<close>.\<close>

definition serial_error_body :: "py_exception \<Rightarrow> string" where
  \<open>serial_error_body e = ''{"error": "serial_error", "details": '' @ dumps_str (str_error e) @ ''}''\<close>

text \<open>\<^verbatim>\<open>self.headers.get("Content-Length", "0")\<close>.\<close>

definition get_content_length :: "request \<Rightarrow> string" where
  "get_content_length req = (case content_length req of None \<Rightarrow> ''0'' | Some h \<Rightarrow> h)"

definition do_POST :: "serial option \<Rightarrow> request \<Rightarrow> result" where
  \<open>do_POST serial_conn req =
     (if path req \<noteq> ''/wind-speed'' then
        \<lparr>reply = Sent (json_response 404 ''{"error":"not_found"}''), write_calls = []\<rparr>
      else
        case int_text (get_content_length req) of
          Inl e \<Rightarrow> \<lparr>reply = Raised e, write_calls = []\<rparr>
        | Inr len \<Rightarrow>
            (case wind_speed_of len (rfile req) of
               Inl e \<Rightarrow>
                 if caught e then
                   \<lparr>reply = Sent (json_response 400 ''{"error":"invalid_payload"}''),
                    write_calls = []\<rparr>
                 else \<lparr>reply = Raised e, write_calls = []\<rparr>
             | Inr wind_speed \<Rightarrow>
                 (let message = format_1f wind_speed @ [CHR 0x0A] in
                  case forward serial_conn message of
                    (Some error, ws) \<Rightarrow>
                      \<lparr>reply = Sent (json_response 500 (serial_error_body error)),
                       write_calls = ws\<rparr>
                  | (None, ws) \<Rightarrow>
                      \<lparr>reply = Sent (json_response 200 ''{"status":"ok"}''),
                       write_calls = ws\<rparr>)))\<close>

text \<open>
  The library's dispatch (\<^verbatim>\<open>handle_one_request\<close>) calls the method \<^verbatim>\<open>do_\<close> + command when
  the handler has one and answers \<^verbatim>\<open>501 Unsupported method\<close> itself when it has none.
  \<^verbatim>\<open>WindSpeedHandler\<close> defines \<^verbatim>\<open>do_OPTIONS\<close> and \<^verbatim>\<open>do_POST\<close> only.
\<close>

definition handle_one_request :: "serial option \<Rightarrow> request \<Rightarrow> result" where
  "handle_one_request serial_conn req =
     (if command req = ''OPTIONS'' then \<lparr>reply = Sent do_OPTIONS, write_calls = []\<rparr>
      else if command req = ''POST'' then do_POST serial_conn req
      else \<lparr>reply = SendError 501, write_calls = []\<rparr>)"

section \<open>Startup and shutdown\<close>

text \<open>
  \<^verbatim>\<open>main\<close> as the main thread runs it. Opening the port returns, raises
  \<^verbatim>\<open>SerialException\<close>, or is cut short by \<^verbatim>\<open>KeyboardInterrupt\<close> (Ctrl-C while the default
  handler of \<^verbatim>\<open>SIGINT\<close> is still in place). After that \<^verbatim>\<open>main\<close> installs \<^verbatim>\<open>shutdown_handler\<close>
  for \<^verbatim>\<open>SIGINT\<close> and \<^verbatim>\<open>SIGTERM\<close> and calls \<^verbatim>\<open>serve_forever\<close>; what reaches the main thread
  from then on is a list of events: connections to accept, and those two signals.
\<close>

datatype open_outcome = Opened | PortUnavailable pystr | Interrupted

datatype signal = SIGINT | SIGTERM

datatype event = Connection | Signal signal

text \<open>
  The two fields of \<^verbatim>\<open>socketserver.BaseServer\<close> that stop the loop: the flag
  \<^verbatim>\<open>__shutdown_request\<close> and the event \<^verbatim>\<open>__is_shut_down\<close>.
\<close>

record server =
  shutdown_request :: bool
  is_shut_down :: bool

text \<open>
  \<^verbatim>\<open>BaseServer.shutdown\<close> sets the flag and waits for the event. Python runs a signal
  handler on the main thread, here on top of the frame of \<^verbatim>\<open>serve_forever\<close>, and the
  event is set by the \<^verbatim>\<open>finally\<close> clause of that frame only: a wait on a clear event does
  not return (\<open>None\<close>).
\<close>

definition shutdown :: "server \<Rightarrow> server option" where
  "shutdown srv =
     (let srv' = srv\<lparr>shutdown_request := True\<rparr>
      in if is_shut_down srv' then Some srv' else None)"

definition shutdown_handler :: "signal \<Rightarrow> server \<Rightarrow> server option" where
  "shutdown_handler signum srv = shutdown srv"

text \<open>
  The loop of \<^verbatim>\<open>serve_forever\<close>: it ends when the flag is set; a connection is handed to
  a thread of its own; with no event left it polls for ever (\<open>None\<close>).
\<close>

fun serve_loop :: "server \<Rightarrow> event list \<Rightarrow> server option" where
  "serve_loop srv [] = (if shutdown_request srv then Some srv else None)"
| "serve_loop srv (ev # evs) =
     (if shutdown_request srv then Some srv
      else
        case ev of
          Connection \<Rightarrow> serve_loop srv evs
        | Signal signum \<Rightarrow>
            (case shutdown_handler signum srv of
               None \<Rightarrow> None
             | Some srv' \<Rightarrow> serve_loop srv' evs))"

definition serve_forever :: "server \<Rightarrow> event list \<Rightarrow> server option" where
  "serve_forever srv evs =
     (case serve_loop (srv\<lparr>is_shut_down := False\<rparr>) evs of
        None \<Rightarrow> None
      | Some srv' \<Rightarrow> Some (srv'\<lparr>shutdown_request := False, is_shut_down := True\<rparr>))"

text \<open>
  A run of the process: whether the HTTP listener was started, whether the port was
  closed, and the exit status, \<open>None\<close> when the process does not exit.
  \<^verbatim>\<open>SystemExit(1)\<close> leaves with status 1; \<^verbatim>\<open>KeyboardInterrupt\<close> reaches the \<^verbatim>\<open>__main__\<close> block,
  which calls \<^verbatim>\<open>sys.exit(0)\<close>; a return of \<^verbatim>\<open>main\<close> is status 0.
\<close>

record run =
  listening :: bool
  serial_closed :: bool
  exit_status :: "nat option"

definition main :: "open_outcome \<Rightarrow> event list \<Rightarrow> run" where
  "main opening evs =
     (case opening of
        PortUnavailable m \<Rightarrow> \<lparr>listening = False, serial_closed = False, exit_status = Some 1\<rparr>
      | Interrupted \<Rightarrow> \<lparr>listening = False, serial_closed = False, exit_status = Some 0\<rparr>
      | Opened \<Rightarrow>
          (case serve_forever \<lparr>shutdown_request = False, is_shut_down = False\<rparr> evs of
             None \<Rightarrow> \<lparr>listening = True, serial_closed = False, exit_status = None\<rparr>
           | Some srv \<Rightarrow> \<lparr>listening = True, serial_closed = True, exit_status = Some 0\<rparr>))"

section \<open>The terms of the specification\<close>

text \<open>
  The predicates in which the properties are stated. \<open>carries req payload\<close>: the request
  is for \<^verbatim>\<open>/wind-speed\<close>, its \<^verbatim>\<open>Content-Length\<close> is an integer or absent, and the handler
  reads \<open>payload\<close> as the body.
\<close>

definition carries :: "request \<Rightarrow> string \<Rightarrow> bool" where
  "carries req payload \<longleftrightarrow>
     path req = ''/wind-speed'' \<and>
     (case int_text (get_content_length req) of
        Inl e \<Rightarrow> False
      | Inr len \<Rightarrow> read_payload len (rfile req) = Inr payload)"

text \<open>ASCII text without the character \<open>0x00\<close>: the bodies the decoder is modelled for.\<close>

definition ascii_text :: "string \<Rightarrow> bool" where
  "ascii_text s \<longleftrightarrow> list_all (\<lambda>c. 0 < (of_char c :: nat) \<and> (of_char c :: nat) < 128) s"

text \<open>A JSON number: an \<^verbatim>\<open>int\<close> or a \<^verbatim>\<open>float\<close> of the decoder.\<close>

definition is_number :: "pyvalue \<Rightarrow> bool" where
  "is_number x = (case x of PyInt _ \<Rightarrow> True | PyFloat _ \<Rightarrow> True | _ \<Rightarrow> False)"

text \<open>
  A value that is not numeric: \<^verbatim>\<open>null\<close>, an array, an object, or an (ASCII) string that
  \<^verbatim>\<open>float\<close> does not read.
\<close>

definition non_numeric :: "pyvalue \<Rightarrow> bool" where
  "non_numeric x =
     (case x of
        PyNone \<Rightarrow> True
      | PyList _ \<Rightarrow> True
      | PyDict _ \<Rightarrow> True
      | PyStr t \<Rightarrow> ascii_str t \<and> isl (float_str t)
      | _ \<Rightarrow> False)"

text \<open>
  A payload the specification calls invalid: malformed JSON, JSON that is not an
  object, an object without \<^verbatim>\<open>windSpeedKmh\<close>, or one whose \<^verbatim>\<open>windSpeedKmh\<close> is not numeric.
\<close>

definition invalid_payload :: "string \<Rightarrow> bool" where
  "invalid_payload payload =
     (case json_loads payload of
        Inl e \<Rightarrow> True
      | Inr data \<Rightarrow>
          (case data of
             PyDict kvs \<Rightarrow>
               (case map_of (rev kvs) (str_of ''windSpeedKmh'') of
                  None \<Rightarrow> True
                | Some x \<Rightarrow> non_numeric x)
           | _ \<Rightarrow> True))"

text \<open>
  Fixed-point text with exactly one digit after the decimal point: an optional minus
  sign, one or more digits, a point, one digit.
\<close>

definition one_decimal :: "string \<Rightarrow> bool" where
  "one_decimal t =
     (case rev (if take 1 t = ''-'' then drop 1 t else t) of
        d # p # ip \<Rightarrow> is_digit d \<and> p = CHR ''.'' \<and> ip \<noteq> [] \<and> list_all is_digit ip
      | _ \<Rightarrow> False)"

section \<open>Facts about the runtime operations\<close>

subsection \<open>The shape of formatted numbers\<close>

lemma is_digit_digit: "is_digit (digit d)"
proof -
  have "d mod 10 \<in> {0, 1, 2, 3, 4, 5, 6, 7, 8, 9}" by (simp; presburger)
  then show ?thesis
    by (auto simp: digit_def is_digit_def)
qed

lemma decimal_digits: "decimal n \<noteq> [] \<and> list_all is_digit (decimal n)"
proof (induction n rule: decimal.induct)
  case (1 n)
  show ?case
  proof (cases "n < 10")
    case True
    then show ?thesis by (simp add: decimal.simps [of n] is_digit_digit)
  next
    case False
    with 1 show ?thesis by (simp add: decimal.simps [of n] is_digit_digit)
  qed
qed

lemma not_digit_minus: "\<not> is_digit (CHR ''-'')"
  by (simp add: is_digit_def)

lemma one_decimal_shape:
  assumes "ip \<noteq> []" "list_all is_digit ip"
  shows "one_decimal ((if neg then ''-'' else '''') @ ip @ ''.'' @ [digit d])"
proof -
  obtain c cs where ip: "ip = c # cs" using assms(1) by (cases ip) auto
  have c: "c \<noteq> CHR ''-''" using assms(2) ip not_digit_minus by auto
  show ?thesis
    using assms c by (cases neg) (simp_all add: one_decimal_def ip is_digit_digit)
qed

lemma format_1f_finite: "one_decimal (format_1f (Finite neg m e))"
  using decimal_digits one_decimal_shape 
  by (simp add: format_1f_def Let_def del: append.simps append_Cons append_Nil)

subsection \<open>Overflow of the conversion to binary64\<close>

text \<open>
  \<open>bit_length n\<close> is the number of binary digits of \<open>n\<close>; with it the exponent chosen
  by \<open>float_of_ratio\<close> is the right one, and a ratio of \<open>2 ^ 1024\<close> or more is infinite.
\<close>

lemma bit_length_upper: "n < 2 ^ bit_length n"
proof (induction n rule: bit_length.induct)
  case (1 n)
  show ?case
  proof (cases "n = 0")
    case True
    then show ?thesis by (simp add: bit_length.simps [of n])
  next
    case False
    with 1 have "n div 2 < 2 ^ bit_length (n div 2)" by simp
    then have "n < 2 * 2 ^ bit_length (n div 2)" by linarith
    with False show ?thesis by (simp add: bit_length.simps [of n])
  qed
qed

lemma bit_length_lower: "0 < n \<Longrightarrow> 2 ^ (bit_length n - 1) \<le> n"
proof (induction n rule: bit_length.induct)
  case (1 n)
  then have n: "n \<noteq> 0" by simp
  show ?case
  proof (cases "n div 2 = 0")
    case True
    with n show ?thesis
      by (simp add: bit_length.simps [of n] bit_length.simps [of 0])
  next
    case False
    with 1 n have ih: "2 ^ (bit_length (n div 2) - 1) \<le> n div 2" by simp
    have pos: "0 < bit_length (n div 2)"
      using False by (simp add: bit_length.simps [of "n div 2"])
    then have "(2::nat) ^ bit_length (n div 2) = 2 * 2 ^ (bit_length (n div 2) - 1)"
      by (cases "bit_length (n div 2)") simp_all
    with ih have "2 ^ bit_length (n div 2) \<le> n" by linarith
    with n show ?thesis by (simp add: bit_length.simps [of n])
  qed
qed

lemma round_half_even_ge: "n div d \<le> round_half_even n d"
  by (simp add: round_half_even_def Let_def)

lemma float_of_ratio_overflow:
  assumes d: "0 < d" and big: "d * 2 ^ 1024 \<le> n"
  shows "float_of_ratio neg n d = Infinite neg"
proof -
  define P :: nat where "P = 1024"
  define bn where "bn = bit_length n"
  define bd where "bd = bit_length d"
  define k where "k = int bn - int bd"
  define fl where "fl = (if pow2_le k n d then k else k - 1)"
  define e where "e = max (fl - 52) (- 1074)"
  define m where "m = (if 0 \<le> e then round_half_even n (d * 2 ^ nat e)
                       else round_half_even (n * 2 ^ nat (- e)) d)"
  have big': "d * 2 ^ P \<le> n" using big unfolding P_def .
  have n: "0 < n" using d big' by (cases n) auto
  have nu: "n < 2 ^ bn" unfolding bn_def by (rule bit_length_upper)
  have nl: "2 ^ (bn - 1) \<le> n" unfolding bn_def using n by (rule bit_length_lower)
  have du: "d < 2 ^ bd" unfolding bd_def by (rule bit_length_upper)
  have dl: "2 ^ (bd - 1) \<le> d" unfolding bd_def using d by (rule bit_length_lower)
  have bd: "0 < bd" using du d by (cases bd) auto
  have "(2::nat) ^ (bd - 1 + P) = 2 ^ (bd - 1) * 2 ^ P" by (simp add: power_add)
  also have "\<dots> \<le> d * 2 ^ P" using dl by simp
  also have "\<dots> < 2 ^ bn" using big' nu by linarith
  finally have "bd - 1 + P < bn" by simp
  then have k: "int P \<le> k" using bd unfolding k_def by linarith
  have fl: "int P \<le> fl \<and> d * 2 ^ nat fl \<le> n"
  proof (cases "pow2_le k n d")
    case True
    then show ?thesis using k by (simp add: fl_def pow2_le_def)
  next
    case False
    then have lt: "n < d * 2 ^ nat k" using k by (simp add: pow2_le_def)
    have "(2::nat) ^ P < 2 ^ nat k"
    proof -
      have "d * 2 ^ P < d * 2 ^ nat k" using big' lt by linarith
      then show ?thesis using d by simp
    qed
    then have "P < nat k" by simp
    then have k': "int P + 1 \<le> k" by linarith
    have nk: "nat (k - 1) + bd = bn - 1"
      using k' bd unfolding k_def by linarith
    have "d * 2 ^ nat (k - 1) \<le> 2 ^ bd * 2 ^ nat (k - 1)" using du by simp
    also have "\<dots> = 2 ^ (bn - 1)" using nk by (simp add: power_add [symmetric] add.commute)
    also have "\<dots> \<le> n" by (rule nl)
    finally show ?thesis using False k' by (simp add: fl_def)
  qed
  then have e: "972 \<le> e" and e_eq: "e = fl - 52" by (simp_all add: e_def P_def)
  have "nat e \<le> nat fl" using e_eq by simp
  then have "(2::nat) ^ nat e \<le> 2 ^ nat fl" by (rule power_increasing) simp
  then have "d * 2 ^ nat e \<le> d * 2 ^ nat fl" by simp
  with fl have le: "d * 2 ^ nat e \<le> n" by linarith
  have "0 < d * 2 ^ nat e" using d by simp
  with le have "0 < n div (d * 2 ^ nat e)" by (simp add: div_greater_zero_iff)
  with round_half_even_ge [of n "d * 2 ^ nat e"] have m: "0 < m"
    using e by (simp add: m_def)
  have "float_of_ratio neg n d =
      (if m = 0 then Finite neg 0 0
       else if m = 2 ^ 53 then (if 971 \<le> e then Infinite neg else Finite neg (2 ^ 52) (e + 1))
       else if 971 < e then Infinite neg
       else Finite neg m e)"
    using n unfolding float_of_ratio_def Let_def m_def e_def fl_def k_def bn_def bd_def
    by (simp del: power_numeral)
  with m e show ?thesis by (simp del: power_numeral)
qed

lemma float_of_int_overflow: "2 ^ 1024 \<le> \<bar>i\<bar> \<Longrightarrow> float_of_int i = Inl OverflowError"
proof -
  assume a: "2 ^ 1024 \<le> \<bar>i\<bar>"
  have "nat (2 ^ 1024) \<le> nat \<bar>i\<bar>" using a by (rule nat_mono)
  then have "1 * 2 ^ 1024 \<le> nat \<bar>i\<bar>" by (simp add: nat_power_eq del: power_numeral)
  then have "float_of_ratio (i < 0) (nat \<bar>i\<bar>) 1 = Infinite (i < 0)"
    by (rule float_of_ratio_overflow [rotated]) simp
  then show ?thesis by (simp add: float_of_int_def)
qed

lemma two_1024_le_ten_999: "(1::nat) * 2 ^ 1024 \<le> 10 ^ 999"
proof -
  have "(2::nat) ^ 1024 \<le> 2 ^ (3 * 999)" by (rule power_increasing) simp_all
  also have "\<dots> = (2 ^ 3) ^ 999" by (rule power_mult)
  also have "\<dots> \<le> (10::nat) ^ 999" by (rule power_mono) simp_all
  finally show ?thesis by (simp del: power_numeral)
qed

lemma float_of_decimal_1e999: "float_of_decimal False ''1'' [] 999 = Infinite False"
proof -
  have "float_of_ratio False (10 ^ 999) 1 = Infinite False"
    using two_1024_le_ten_999 by (intro float_of_ratio_overflow) (simp_all del: power_numeral)
  then show ?thesis
    by (simp add: float_of_decimal_def nat_of_digits_def digit_val_def del: power_numeral)
qed

subsection \<open>The scanner consumes what it reads\<close>

lemma dropWhile_drop_length: "length (dropWhile P (drop n t)) \<le> length t"
  using length_dropWhile_le [of P "drop n t"] by simp

lemma skip_ws_less: "length r < length (skip_ws s) \<Longrightarrow> length r < length s"
  using skip_ws_length [of s] by simp

lemma match_frac_length: "match_frac r = (f, r') \<Longrightarrow> length r' \<le> length r"
  using dropWhile_drop_length [of is_digit 2 r]
  by (auto simp: match_frac_def split: list.splits if_splits)

lemma dropWhile_length_Suc:
  "length (dropWhile P t) \<le> Suc (length t)"
  "length (dropWhile P (drop n t)) \<le> Suc (length t)"
  using length_dropWhile_le [of P t] dropWhile_drop_length [of P n t] by simp_all

lemma match_exp_length: "match_exp r = (x, r') \<Longrightarrow> length r' \<le> length r"
  by (cases r) (auto simp: match_exp_def Let_def dropWhile_length_Suc split: if_splits)

lemma match_number_length:
  assumes "match_number s = Some (i, f, x, r)"
  shows "length r < length s"
proof -
  define sg where "sg = (if take 1 s = ''-'' then ''-'' else [])"
  obtain d r0 where s1: "drop (length sg) s = d # r0"
    using assms unfolding match_number_def sg_def Let_def
    by (auto split: list.splits)
  define r1 where "r1 = (if d = CHR ''0'' then r0 else dropWhile is_digit r0)"
  obtain f' r2 where mf: "match_frac r1 = (f', r2)" by (cases "match_frac r1")
  obtain x' r3 where mx: "match_exp r2 = (x', r3)" by (cases "match_exp r2")
  have "r = r3"
  proof (cases "d = CHR ''0''")
    case True
    with mf have "match_frac r0 = (f', r2)" by (simp add: r1_def)
    with assms s1 mx True show ?thesis
      unfolding match_number_def Let_def sg_def [symmetric]
      by (simp split: if_splits)
  next
    case False
    with mf have "match_frac (dropWhile is_digit r0) = (f', r2)" by (simp add: r1_def)
    with assms s1 mx False show ?thesis
      unfolding match_number_def Let_def sg_def [symmetric]
      by (simp split: if_splits)
  qed
  moreover have "length r3 \<le> length r2" using mx by (rule match_exp_length)
  moreover have "length r2 \<le> length r1" using mf by (rule match_frac_length)
  moreover have "length r1 \<le> length r0"
    using length_dropWhile_le [of is_digit r0] by (simp add: r1_def)
  moreover have "length r0 < length s"
  proof -
    have "length (drop (length sg) s) = Suc (length r0)" using s1 by simp
    then show ?thesis by simp
  qed
  ultimately show ?thesis by simp
qed

lemma take_Cons_nonempty: "take n s = c # t \<Longrightarrow> 0 < length s"
  by auto

lemma scan_atom_length:
  assumes "scan_atom s = Inr (v, r)"
  shows "length r < length s"
  using assms unfolding scan_atom_def
  by (auto split: if_splits option.splits prod.splits sum.splits
      dest!: match_number_length take_Cons_nonempty)

lemma scan_once_length:
  "scan_once s = Inr (v, r) \<Longrightarrow> length r < length s"
  "JSONArray s1 a = Inr (v, r) \<Longrightarrow> length r < length s1"
  "JSONObject s2 b = Inr (v, r) \<Longrightarrow> length r < length s2"
proof (induction s and s1 a and s2 b arbitrary: v r and v r and v r
    rule: scan_once_JSONArray_JSONObject.induct)
  case (1 s)
  show ?case
  proof (cases s)
    case Nil
    with "1.prems" show ?thesis by (simp add: scan_once.simps [of "[]"])
  next
    case (Cons c cs)
    have p0: "scan_once (c # cs) = Inr (v, r)" using "1.prems" Cons by simp
    note p = p0 [unfolded scan_once.simps [of "c # cs"] list.case]
    consider (str) "c = CHR 0x22"
      | (obj) "c \<noteq> CHR 0x22" "c = CHR ''{''"
      | (arr) "c \<noteq> CHR 0x22" "c \<noteq> CHR ''{''" "c = CHR ''[''"
      | (atom) "c \<noteq> CHR 0x22" "c \<noteq> CHR ''{''" "c \<noteq> CHR ''[''"
      by blast
    then show ?thesis
    proof cases
      case str
      with p obtain t where "scanstring cs [] = Inr (t, r)"
        by (auto split: sum.splits prod.splits)
      then have "length r < length cs" by (rule scanstring_length)
      with Cons show ?thesis by simp
    next
      case obj
      with p obtain d r' where sk: "skip_ws cs = d # r'"
        and alt: "(d = CHR ''}'' \<and> r = r') \<or> (d \<noteq> CHR ''}'' \<and> d = CHR 0x22 \<and> JSONObject r' [] = Inr (v, r))"
        by (auto split: list.splits if_splits)
      have l: "length r' < length cs" using sk by (rule skip_ws_Cons_length)
      from alt show ?thesis
      proof
        assume "d = CHR ''}'' \<and> r = r'"
        with l Cons show ?thesis by simp
      next
        assume a: "d \<noteq> CHR ''}'' \<and> d = CHR 0x22 \<and> JSONObject r' [] = Inr (v, r)"
        then have "length r < length r'"
          using "1.IH"(1) [OF Cons obj(1) obj(2) sk] by simp
        with l Cons show ?thesis by simp
      qed
    next
      case arr
      show ?thesis
      proof (cases "take 1 (skip_ws cs) = '']''")
        case True
        with p arr have "r = drop 1 (skip_ws cs)"
          by simp
        with skip_ws_length [of cs] Cons show ?thesis by simp
      next
        case False
        with p arr have "JSONArray (skip_ws cs) [] = Inr (v, r)"
          by simp
        then have "length r < length (skip_ws cs)"
          using "1.IH"(2) [OF Cons arr(1) arr(2) arr(3) False] by simp
        with skip_ws_length [of cs] Cons show ?thesis by simp
      qed
    next
      case atom
      with p have "scan_atom (c # cs) = Inr (v, r)" by simp
      then have "length r < length (c # cs)" by (rule scan_atom_length)
      with Cons show ?thesis by simp
    qed
  qed
next
  case (2 s acc)
  from "2.prems" obtain v0 r0 d r1 where sc: "scan_once s = Inr (v0, r0)"
    and sk: "skip_ws r0 = d # r1"
    and alt: "(d = CHR '']'' \<and> r = r1) \<or>
      (d \<noteq> CHR '']'' \<and> d = CHR '','' \<and> length r1 < length s
         \<and> JSONArray (skip_ws r1) (acc @ [v0]) = Inr (v, r))"
    by (auto simp: JSONArray.simps [of s acc] split: sum.splits prod.splits list.splits if_splits)
  have l0: "length r0 < length s" using sc by (rule "2.IH"(1))
  have l1: "length r1 < length r0" using sk by (rule skip_ws_Cons_length)
  from alt show ?case
  proof
    assume "d = CHR '']'' \<and> r = r1"
    with l0 l1 show ?thesis by simp
  next
    assume a: "d \<noteq> CHR '']'' \<and> d = CHR '','' \<and> length r1 < length s
         \<and> JSONArray (skip_ws r1) (acc @ [v0]) = Inr (v, r)"
    then have "length r < length (skip_ws r1)"
      using "2.IH"(2) [OF sc refl sk] by simp
    with skip_ws_length [of r1] a show ?thesis by simp
  qed
next
  case (3 s acc)
  from "3.prems" obtain k r0 d r1 v0 r2 d2 r3 where ss: "scanstring s [] = Inr (k, r0)"
    and sk: "skip_ws r0 = d # r1" and d: "d = CHR '':''"
    and sc: "scan_once (skip_ws r1) = Inr (v0, r2)"
    and sk2: "skip_ws r2 = d2 # r3"
    and alt: "(d2 = CHR ''}'' \<and> r = r3) \<or>
      (d2 \<noteq> CHR ''}'' \<and> d2 = CHR '','' \<and> (\<exists>d3 r4. skip_ws r3 = d3 # r4 \<and> d3 = CHR 0x22
          \<and> length r4 < length s \<and> JSONObject r4 (acc @ [(k, v0)]) = Inr (v, r)))"
    by (auto simp: JSONObject.simps [of s acc] split: sum.splits prod.splits list.splits if_splits)
  have l0: "length r0 < length s" using ss by (rule scanstring_length)
  have l1: "length r1 < length r0" using sk by (rule skip_ws_Cons_length)
  have "length r2 < length (skip_ws r1)"
    using "3.IH"(1) [OF ss refl sk _ sc] d by simp
  with skip_ws_length [of r1] have l2: "length r2 < length r1" by simp
  have l3: "length r3 < length r2" using sk2 by (rule skip_ws_Cons_length)
  from alt show ?case
  proof
    assume "d2 = CHR ''}'' \<and> r = r3"
    with l0 l1 l2 l3 show ?thesis by simp
  next
    assume "d2 \<noteq> CHR ''}'' \<and> d2 = CHR '','' \<and> (\<exists>d3 r4. skip_ws r3 = d3 # r4 \<and> d3 = CHR 0x22
          \<and> length r4 < length s \<and> JSONObject r4 (acc @ [(k, v0)]) = Inr (v, r))"
    then obtain d3 r4 where a: "d2 \<noteq> CHR ''}''" "d2 = CHR '',''" "skip_ws r3 = d3 # r4"
      "d3 = CHR 0x22" "length r4 < length s" "JSONObject r4 (acc @ [(k, v0)]) = Inr (v, r)"
      by blast
    have "length r < length r4"
      using "3.IH"(2) [OF ss refl sk _ sc refl sk2 a(1) a(2) a(3) _ a(6)] d a(4) a(5) by simp
    with a(5) show ?thesis by simp
  qed
qed

text \<open>
  So the tests on lengths in \<open>JSONArray\<close> and \<open>JSONObject\<close> always hold, and the two
  loops satisfy the equations without them.
\<close>

lemma JSONArray_unfold:
  "JSONArray s acc =
     (case scan_once s of
        Inl e \<Rightarrow> Inl e
      | Inr (v, r) \<Rightarrow>
          (case skip_ws r of
             [] \<Rightarrow> Inl JSONDecodeError
           | d # r1 \<Rightarrow>
               if d = CHR '']'' then Inr (PyList (acc @ [v]), r1)
               else if d = CHR '','' then JSONArray (skip_ws r1) (acc @ [v])
               else Inl JSONDecodeError))"
proof (cases "scan_once s")
  case (Inl e)
  then show ?thesis by (simp add: JSONArray.simps [of s acc])
next
  case (Inr p)
  obtain v r where p: "p = (v, r)" by (cases p)
  have l: "length r < length s" using Inr p scan_once_length(1) by simp
  show ?thesis
  proof (cases "skip_ws r")
    case Nil
    with Inr p show ?thesis by (simp add: JSONArray.simps [of s acc])
  next
    case (Cons d r1)
    then have "length r1 < length r" by (rule skip_ws_Cons_length)
    with l have "length r1 < length s" by simp
    with Inr p Cons show ?thesis by (simp add: JSONArray.simps [of s acc])
  qed
qed

lemma JSONObject_unfold:
  "JSONObject s acc =
     (case scanstring s [] of
        Inl e \<Rightarrow> Inl e
      | Inr (k, r) \<Rightarrow>
          (case skip_ws r of
             [] \<Rightarrow> Inl JSONDecodeError
           | d # r1 \<Rightarrow>
               if d \<noteq> CHR '':'' then Inl JSONDecodeError
               else
                 (case scan_once (skip_ws r1) of
                    Inl e \<Rightarrow> Inl e
                  | Inr (v, r2) \<Rightarrow>
                      (case skip_ws r2 of
                         [] \<Rightarrow> Inl JSONDecodeError
                       | d2 # r3 \<Rightarrow>
                           if d2 = CHR ''}'' then Inr (PyDict (acc @ [(k, v)]), r3)
                           else if d2 = CHR '','' then
                             (case skip_ws r3 of
                                [] \<Rightarrow> Inl JSONDecodeError
                              | d3 # r4 \<Rightarrow>
                                  if d3 = CHR 0x22 then JSONObject r4 (acc @ [(k, v)])
                                  else Inl JSONDecodeError)
                           else Inl JSONDecodeError))))"
proof -
  have guard: "length r4 < length s"
    if "scanstring s [] = Inr (k, r)" "skip_ws r = d # r1"
      "scan_once (skip_ws r1) = Inr (v, r2)" "skip_ws r2 = d2 # r3" "skip_ws r3 = d3 # r4"
    for k r d r1 v r2 d2 r3 d3 r4
  proof -
    have "length r < length s" using that(1) by (rule scanstring_length)
    moreover have "length r1 < length r" using that(2) by (rule skip_ws_Cons_length)
    moreover have "length r2 < length (skip_ws r1)" using that(3) by (rule scan_once_length(1))
    moreover have "length (skip_ws r1) \<le> length r1" by (rule skip_ws_length)
    moreover have "length r3 < length r2" using that(4) by (rule skip_ws_Cons_length)
    moreover have "length r4 < length r3" using that(5) by (rule skip_ws_Cons_length)
    ultimately show ?thesis by linarith
  qed
  show ?thesis
    by (subst JSONObject.simps)
      (auto split: sum.splits prod.splits list.splits dest: guard)
qed

subsection \<open>The exceptions of the decoder\<close>

lemma scanstring_error: "scanstring s acc = Inl e \<Longrightarrow> e = JSONDecodeError"
  by (induction s acc rule: scanstring.induct) (auto split: if_splits option.splits)

lemma float_text_error: "float_text s = Inl e \<Longrightarrow> e = ValueError"
  by (auto simp: float_text_def Let_def split: if_splits option.splits)

lemma int_text_error: "int_text s = Inl e \<Longrightarrow> e = ValueError"
  by (auto simp: int_text_def Let_def split: if_splits)

lemma float_str_error: "float_str s = Inl e \<Longrightarrow> e = ValueError"
  by (auto simp: float_str_def dest: float_text_error split: if_splits)

lemma scan_atom_error: "scan_atom s = Inl e \<Longrightarrow> e = JSONDecodeError \<or> e = ValueError"
  by (auto simp: scan_atom_def split: if_splits option.splits prod.splits sum.splits
      dest: float_text_error int_text_error)

lemma scan_once_error:
  "scan_once s = Inl e \<Longrightarrow> e = JSONDecodeError \<or> e = ValueError"
  "JSONArray s1 a = Inl e \<Longrightarrow> e = JSONDecodeError \<or> e = ValueError"
  "JSONObject s2 b = Inl e \<Longrightarrow> e = JSONDecodeError \<or> e = ValueError"
proof (induction s and s1 a and s2 b rule: scan_once_JSONArray_JSONObject.induct)
  case (1 s)
  from "1.prems" show ?case
    apply (subst (asm) scan_once.simps)
    apply (auto split: list.splits if_splits sum.splits prod.splits
       dest: scanstring_error scan_atom_error "1.IH")
    done
next
  case (2 s acc)
  from "2.prems" show ?case
    apply (subst (asm) JSONArray.simps)
    apply (auto split: list.splits if_splits sum.splits prod.splits dest: "2.IH")
    done
next
  case (3 s acc)
  from "3.prems" show ?case
    apply (subst (asm) JSONObject.simps)
    apply (auto split: list.splits if_splits sum.splits prod.splits dest: scanstring_error "3.IH")
    done
qed

lemma json_loads_error: "json_loads s = Inl e \<Longrightarrow> e = JSONDecodeError \<or> e = ValueError"
  by (auto simp: json_loads_def split: sum.splits prod.splits if_splits dest: scan_once_error(1))

section \<open>Properties\<close>


subsection \<open>Routing and headers\<close>

text \<open>
  C5, as the code has it. A \<^verbatim>\<open>POST\<close> to any path other than \<^verbatim>\<open>/wind-speed\<close> is answered
  404 with the body \<^verbatim>\<open>{"error":"not_found"}\<close> and nothing is written to the port. A
  request whose method is neither \<^verbatim>\<open>POST\<close> nor \<^verbatim>\<open>OPTIONS\<close> never reaches the handler's
  code: the library answers 501.
\<close>

theorem other_paths_and_methods:
  \<open>(command req = ''POST'' \<and> path req \<noteq> ''/wind-speed'' \<longrightarrow>
      handle_one_request serial_conn req =
        \<lparr>reply = Sent (json_response 404 ''{"error":"not_found"}''), write_calls = []\<rparr>)
   \<and> (command req \<noteq> ''POST'' \<and> command req \<noteq> ''OPTIONS'' \<longrightarrow>
      handle_one_request serial_conn req = \<lparr>reply = SendError 501, write_calls = []\<rparr>)\<close>
  by (simp add: handle_one_request_def do_POST_def)

theorem other_paths_and_methods_witness:
  \<open>handle_one_request None
      \<lparr>command = ''POST'', path = ''/other'', content_length = None, rfile = []\<rparr> =
        \<lparr>reply = Sent (json_response 404 ''{"error":"not_found"}''), write_calls = []\<rparr>
   \<and> handle_one_request None
      \<lparr>command = ''GET'', path = ''/other'', content_length = None, rfile = []\<rparr> =
        \<lparr>reply = SendError 501, write_calls = []\<rparr>\<close>
  using other_paths_and_methods [of
      "\<lparr>command = ''POST'', path = ''/other'', content_length = None, rfile = []\<rparr>" None]
    other_paths_and_methods [of
      "\<lparr>command = ''GET'', path = ''/other'', content_length = None, rfile = []\<rparr>" None]
  by simp

text \<open>
  C5 as the specification states it fails: a \<^verbatim>\<open>GET\<close>, here on \<^verbatim>\<open>/wind-speed\<close>, is
  answered 501 by the library and not 404 by the handler.
\<close>

theorem get_is_not_404:
  \<open>reply (handle_one_request None
      \<lparr>command = ''GET'', path = ''/wind-speed'', content_length = None, rfile = []\<rparr>)
     = SendError 501
   \<and> reply (handle_one_request None
      \<lparr>command = ''GET'', path = ''/wind-speed'', content_length = None, rfile = []\<rparr>)
     \<noteq> Sent (json_response 404 ''{"error":"not_found"}'')\<close>
  by (simp add: handle_one_request_def)



subsection \<open>Exceptions that leave the handler\<close>

text \<open>
  C7 at the input it names. \<^verbatim>\<open>int(self.headers.get("Content-Length", "0"))\<close> stands
  before the \<^verbatim>\<open>try\<close>: with the header \<^verbatim>\<open>Content-Length: abc\<close> the \<^verbatim>\<open>ValueError\<close> leaves
  \<^verbatim>\<open>do_POST\<close>, and the request gets no response at all.
\<close>

theorem bad_content_length_raises:
  \<open>do_POST (Some (\<lambda>m. None))
      \<lparr>command = ''POST'', path = ''/wind-speed'', content_length = Some ''abc'',
       rfile = ''{"windSpeedKmh": 7}''\<rparr> =
     \<lparr>reply = Raised ValueError, write_calls = []\<rparr>\<close>
  by (simp add: do_POST_def get_content_length_def int_text_def strip_def is_space_def is_digit_def)

subsection \<open>Shutdown\<close>

lemma serve_loop_blocks:
  "\<not> shutdown_request srv \<Longrightarrow> \<not> is_shut_down srv \<Longrightarrow> serve_loop srv evs = None"
  by (induction evs) (auto simp: shutdown_handler_def shutdown_def split: event.splits)

text \<open>
  C6 at a signal. With the port open and the server running, \<^verbatim>\<open>SIGTERM\<close> runs
  \<^verbatim>\<open>shutdown_handler\<close> on the main thread; \<^verbatim>\<open>server.shutdown()\<close> waits there for the loop
  it has interrupted, so the process does not exit and the port is not closed.
\<close>

theorem sigterm_never_exits:
  "main Opened [Signal SIGTERM] =
     \<lparr>listening = True, serial_closed = False, exit_status = None\<rparr>"
  by (simp add: main_def serve_forever_def shutdown_handler_def shutdown_def)

end
